theory Spec2Isabelle
  imports Complex_Main "HOL-Library.Sublist"
begin

section \<open>Python strings and the character classes of \<open>re\<close>\<close>

text \<open>
  A Python \<open>str\<close> is a sequence of Unicode code points.  The classes \<open>\s\<close>, \<open>\S\<close> and
  \<open>\w\<close> of \<open>re\<close> (on \<open>str\<close> patterns, no flags) and \<open>str.lower\<close>, \<open>str.strip\<close> read the
  Unicode character database of the interpreter.  Their values on ASCII are fixed and
  written out below; beyond ASCII the database is a parameter of the model.
\<close>

type_synonym codepoint = nat
type_synonym pystr = "codepoint list"

definition py :: "string \<Rightarrow> pystr" where
  "py s = map of_char s"

record pylib =
  uni_isspace :: "codepoint \<Rightarrow> bool"
  uni_isalnum :: "codepoint \<Rightarrow> bool"
  uni_lower :: "pystr \<Rightarrow> nat \<Rightarrow> pystr"
  num_str :: "real \<Rightarrow> pystr"

text \<open>
  \<open>uni_lower L s i\<close> is the lower-case expansion of the code point at position \<open>i\<close> of
  \<open>s\<close>: one code point may expand to several, and the expansion of a capital sigma
  depends on its neighbours.  \<open>num_str L x\<close> is \<open>str(x)\<close> of a number.

  \<open>ascii_lib\<close> is the library restricted to ASCII: no whitespace and no word
  character beyond it, and \<open>lower\<close> leaves every other code point as it is.
\<close>

definition ascii_lib :: pylib where
  "ascii_lib = \<lparr> uni_isspace = (\<lambda>c. False), uni_isalnum = (\<lambda>c. False),
                 uni_lower = (\<lambda>s i. [s ! i]), num_str = (\<lambda>x. []) \<rparr>"

definition isspace :: "pylib \<Rightarrow> codepoint \<Rightarrow> bool" where
  "isspace L c =
     (if c < 128 then (9 \<le> c \<and> c \<le> 13) \<or> (28 \<le> c \<and> c \<le> 32) else uni_isspace L c)"

definition isword :: "pylib \<Rightarrow> codepoint \<Rightarrow> bool" where
  "isword L c =
     (if c < 128
      then (48 \<le> c \<and> c \<le> 57) \<or> (65 \<le> c \<and> c \<le> 90) \<or> c = 95 \<or> (97 \<le> c \<and> c \<le> 122)
      else uni_isalnum L c)"

definition is_az :: "codepoint \<Rightarrow> bool" where
  "is_az c = (97 \<le> c \<and> c \<le> 122)"

definition lower :: "pylib \<Rightarrow> pystr \<Rightarrow> pystr" where
  "lower L s =
     concat (map (\<lambda>i. let c = s ! i in
                        if c < 128 then [if 65 \<le> c \<and> c \<le> 90 then c + 32 else c]
                        else uni_lower L s i)
                 [0..<length s])"

definition strip :: "pylib \<Rightarrow> pystr \<Rightarrow> pystr" where
  "strip L s = rev (dropWhile (isspace L) (rev (dropWhile (isspace L) s)))"

subsection \<open>\<open>re.sub\<close>\<close>

text \<open>
  \<open>re.sub(pattern, repl, text)\<close> scans \<open>text\<close> from the left.  Where the pattern matches
  at the current position, \<open>repl\<close> is emitted and the scan goes on behind the match;
  where it does not, the character is copied and the scan moves one position on.
  A pattern is given by its matcher: the length of its match at the start of the rest
  of the text, \<open>None\<close> when there is none.  Each of the five patterns of \<open>clean_text\<close>
  consumes at least one character, so a match has length \<open>Suc n\<close>.
\<close>

function re_sub :: "(pystr \<Rightarrow> nat option) \<Rightarrow> pystr \<Rightarrow> pystr \<Rightarrow> pystr" where
  "re_sub m repl [] = []"
| "re_sub m repl (c # cs) =
     (case m (c # cs) of
        Some (Suc n) \<Rightarrow> repl @ re_sub m repl (drop n cs)
      | _ \<Rightarrow> c # re_sub m repl cs)"
  by pat_completeness auto
termination
  by (relation "measure (\<lambda>(m, repl, s). length s)") auto

definition run_length :: "(codepoint \<Rightarrow> bool) \<Rightarrow> pystr \<Rightarrow> nat" where
  "run_length P s = length (takeWhile P s)"

text \<open>\<open>http\S+|www\S+\<close>: the first alternative is tried first; \<open>\S+\<close> is greedy.\<close>

definition match_url :: "pylib \<Rightarrow> pystr \<Rightarrow> nat option" where
  "match_url L s =
     (if take 4 s = py ''http'' \<and> 0 < run_length (\<lambda>c. \<not> isspace L c) (drop 4 s)
      then Some (4 + run_length (\<lambda>c. \<not> isspace L c) (drop 4 s))
      else if take 3 s = py ''www'' \<and> 0 < run_length (\<lambda>c. \<not> isspace L c) (drop 3 s)
      then Some (3 + run_length (\<lambda>c. \<not> isspace L c) (drop 3 s))
      else None)"

text \<open>\<open>@\w+\<close> and \<open>#\w+\<close>: the sigil, then one or more word characters.\<close>

definition match_tag :: "pylib \<Rightarrow> codepoint \<Rightarrow> pystr \<Rightarrow> nat option" where
  "match_tag L sigil s =
     (case s of
        [] \<Rightarrow> None
      | c # cs \<Rightarrow>
          if c = sigil \<and> 0 < run_length (isword L) cs
          then Some (1 + run_length (isword L) cs)
          else None)"

text \<open>\<open>[^a-z\s]\<close>: one character that is neither in \<open>a-z\<close> nor whitespace.\<close>

definition match_other :: "pylib \<Rightarrow> pystr \<Rightarrow> nat option" where
  "match_other L s =
     (case s of
        [] \<Rightarrow> None
      | c # cs \<Rightarrow> if \<not> is_az c \<and> \<not> isspace L c then Some 1 else None)"

text \<open>\<open>\s+\<close>: a maximal run of whitespace.\<close>

definition match_spaces :: "pylib \<Rightarrow> pystr \<Rightarrow> nat option" where
  "match_spaces L s =
     (if 0 < run_length (isspace L) s then Some (run_length (isspace L) s) else None)"

subsection \<open>\<open>clean_text\<close>\<close>

text \<open>
  The function of \<open>app.py\<close>, statement by statement.  \<open>str(text)\<close> is the identity on
  the \<open>str\<close> values it is applied to.
\<close>

definition clean_text :: "pylib \<Rightarrow> pystr \<Rightarrow> pystr" where
  "clean_text L text0 =
     (let text1 = lower L text0;
          text2 = re_sub (match_url L) [] text1;
          text3 = re_sub (match_tag L (of_char CHR ''@'')) [] text2;
          text4 = re_sub (match_tag L (of_char CHR ''#'')) [] text3;
          text5 = re_sub (match_other L) [] text4;
          text6 = strip L (re_sub (match_spaces L) (py '' '') text5)
      in text6)"

section \<open>The three stages named by the specification, and its order\<close>

text \<open>
  Removal of all characters outside \<open>[a-z]\<close> and whitespace, and collapsing of
  consecutive whitespace, written as list functions; the other stages are what the
  patterns and \<open>str\<close> methods above compute.
\<close>

definition remove_urls :: "pylib \<Rightarrow> pystr \<Rightarrow> pystr" where
  "remove_urls L = re_sub (match_url L) []"

definition remove_mentions :: "pylib \<Rightarrow> pystr \<Rightarrow> pystr" where
  "remove_mentions L = re_sub (match_tag L (of_char CHR ''@'')) []"

definition remove_hashtags :: "pylib \<Rightarrow> pystr \<Rightarrow> pystr" where
  "remove_hashtags L = re_sub (match_tag L (of_char CHR ''#'')) []"

definition remove_other :: "pylib \<Rightarrow> pystr \<Rightarrow> pystr" where
  "remove_other L s = filter (\<lambda>c. is_az c \<or> isspace L c) s"

function collapse :: "pylib \<Rightarrow> pystr \<Rightarrow> pystr" where
  "collapse L [] = []"
| "collapse L (c # cs) =
     (if isspace L c then 32 # collapse L (dropWhile (isspace L) cs) else c # collapse L cs)"
  by pat_completeness auto
termination
  by (relation "measure (\<lambda>(L, s). length s)") (auto simp: length_dropWhile_le less_Suc_eq_le)

text \<open>The order of the specification: lower-casing is its fourth step.\<close>

definition spec_order :: "pylib \<Rightarrow> pystr \<Rightarrow> pystr" where
  "spec_order L s =
     strip L (collapse L (remove_other L (lower L
       (remove_hashtags L (remove_mentions L (remove_urls L s))))))"

text \<open>The order of the code: lower-casing is the first step.\<close>

definition code_order :: "pylib \<Rightarrow> pystr \<Rightarrow> pystr" where
  "code_order L s =
     strip L (collapse L (remove_other L
       (remove_hashtags L (remove_mentions L (remove_urls L (lower L s))))))"

section \<open>The polarity threshold\<close>

text \<open>
  \<open>TextBlob(str(text)).sentiment.polarity\<close> is the external scorer: a parameter
  \<open>polarity\<close> from texts to scores.  Only the sign of the score is read.
\<close>

definition get_sentiment :: "(pystr \<Rightarrow> real) \<Rightarrow> pystr \<Rightarrow> pystr" where
  "get_sentiment polarity text =
     (if polarity text > 0 then py ''Positive''
      else if polarity text < 0 then py ''Negative''
      else py ''Neutral'')"

section \<open>The table\<close>

text \<open>
  \<open>pd.read_csv\<close> hands the script a \<open>DataFrame\<close>: named columns, each with a dtype and
  one cell per row of the index.  In a frame every column has \<open>df_len\<close> cells.  Cells of
  an \<open>object\<close> column are strings or the missing value; the other dtypes hold numbers and
  truth values.  The operations of pandas that the script calls are given by what they
  do to the columns and rows of such a frame.
\<close>

datatype dtype = Object | Int64 | Float64 | Boolean

datatype cell = Str pystr | NaN | Num real | Flag bool

datatype py_error = KeyError | ValueError | ZeroDivisionError | ParserError

record column =
  col_name :: pystr
  col_dtype :: dtype
  col_values :: "cell list"

record dataframe =
  df_columns :: "column list"
  df_len :: nat

text \<open>\<open>df.select_dtypes(include=["object"]).columns\<close>: the names of the object columns.\<close>

definition select_object :: "dataframe \<Rightarrow> pystr list" where
  "select_object df = map col_name (filter (\<lambda>c. col_dtype c = Object) (df_columns df))"

text \<open>
  \<open>df[names]\<close>: for each name in turn, the columns that carry it; \<open>KeyError\<close> when a
  name is carried by none.
\<close>

definition named_columns :: "dataframe \<Rightarrow> pystr list \<Rightarrow> column list" where
  "named_columns df names =
     concat (map (\<lambda>n. filter (\<lambda>c. col_name c = n) (df_columns df)) names)"

definition names_present :: "dataframe \<Rightarrow> pystr list \<Rightarrow> bool" where
  "names_present df names = list_all (\<lambda>n. n \<in> set (map col_name (df_columns df))) names"

definition getitems :: "dataframe \<Rightarrow> pystr list \<Rightarrow> py_error + column list" where
  "getitems df names =
     (if names_present df names then Inr (named_columns df names) else Inl KeyError)"

text \<open>\<open>df[name]\<close>: the cells of the column, \<open>KeyError\<close> when there is none.\<close>

definition getitem :: "dataframe \<Rightarrow> pystr \<Rightarrow> py_error + cell list" where
  "getitem df name =
     (case find (\<lambda>c. col_name c = name) (df_columns df) of
        None \<Rightarrow> Inl KeyError
      | Some c \<Rightarrow> Inr (col_values c))"

text \<open>
  \<open>df[name] = values\<close>: a column of that name is overwritten where it stands, a new
  one is appended.  The values assigned by the script are strings.
\<close>

definition setitem :: "dataframe \<Rightarrow> pystr \<Rightarrow> cell list \<Rightarrow> dataframe" where
  "setitem df name vals =
     (if name \<in> col_name ` set (df_columns df)
      then df\<lparr>df_columns :=
               map (\<lambda>c. if col_name c = name then c\<lparr>col_dtype := Object, col_values := vals\<rparr> else c)
                   (df_columns df)\<rparr>
      else df\<lparr>df_columns :=
               df_columns df @ [\<lparr>col_name = name, col_dtype = Object, col_values = vals\<rparr>]\<rparr>)"

text \<open>\<open>str(x)\<close> of a cell, as \<open>astype(str)\<close> and the two functions apply it.\<close>

definition cell_str :: "pylib \<Rightarrow> cell \<Rightarrow> pystr" where
  "cell_str L x =
     (case x of
        Str s \<Rightarrow> s
      | NaN \<Rightarrow> py ''nan''
      | Num r \<Rightarrow> num_str L r
      | Flag b \<Rightarrow> if b then py ''True'' else py ''False'')"

text \<open>\<open>sep.join(parts)\<close>.\<close>

fun join :: "pystr \<Rightarrow> pystr list \<Rightarrow> pystr" where
  "join sep [] = []"
| "join sep [x] = x"
| "join sep (x # y # ys) = x @ sep @ join sep (y # ys)"

text \<open>
  \<open>df[text_cols].astype(str).agg(" ".join, axis=1)\<close>.  On a frame with rows the result
  is a column, one string per row: the cells of the text columns, as strings, joined by
  a space.  On a frame without rows there is no row to join, and \<open>agg\<close> hands back the
  frame of the text columns itself (given there is such a column).
\<close>

datatype agg_result = AggSeries "cell list" | AggFrame "column list"

definition row_texts :: "pylib \<Rightarrow> dataframe \<Rightarrow> column list \<Rightarrow> cell list" where
  "row_texts L df cols =
     map (\<lambda>i. Str (join (py '' '') (map (\<lambda>c. cell_str L (col_values c ! i)) cols)))
         [0..<df_len df]"

definition agg_join :: "pylib \<Rightarrow> dataframe \<Rightarrow> pystr list \<Rightarrow> py_error + agg_result" where
  "agg_join L df text_cols =
     (case getitems df text_cols of
        Inl e \<Rightarrow> Inl e
      | Inr cols \<Rightarrow>
          Inr (if df_len df = 0 \<and> cols \<noteq> [] then AggFrame cols
               else AggSeries (row_texts L df cols)))"

text \<open>
  \<open>df[name] = value\<close> for what \<open>agg\<close> returned.  A column is assigned as it is.  A frame
  is assigned as its only column, aligned to the rows of \<open>df\<close>; a frame with more than
  one column cannot be assigned to a single column: \<open>ValueError\<close>.
\<close>

definition setitem_agg ::
  "pylib \<Rightarrow> dataframe \<Rightarrow> pystr \<Rightarrow> agg_result \<Rightarrow> py_error + dataframe" where
  "setitem_agg L df name v =
     (case v of
        AggSeries vals \<Rightarrow> Inr (setitem df name vals)
      | AggFrame cols \<Rightarrow>
          (case cols of
             [c] \<Rightarrow> Inr (setitem df name (row_texts L df [c]))
           | _ \<Rightarrow> Inl ValueError))"

text \<open>
  Lines 42 to 70: the three derived columns.  \<open>Series.apply(f)\<close> maps \<open>f\<close> over the
  cells, and both functions start with \<open>str(text)\<close>.
\<close>

definition add_sentiment ::
  "pylib \<Rightarrow> (pystr \<Rightarrow> real) \<Rightarrow> dataframe \<Rightarrow> pystr list \<Rightarrow> py_error + dataframe" where
  "add_sentiment L polarity df text_cols =
     (case agg_join L df text_cols of
        Inl e \<Rightarrow> Inl e
      | Inr joined \<Rightarrow>
         (case setitem_agg L df (py ''Combined_Text'') joined of
            Inl e \<Rightarrow> Inl e
          | Inr df1 \<Rightarrow>
             (case getitem df1 (py ''Combined_Text'') of
                Inl e \<Rightarrow> Inl e
              | Inr combined \<Rightarrow>
                  (let df2 = setitem df1 (py ''Cleaned_Text'')
                               (map (\<lambda>x. Str (clean_text L (cell_str L x))) combined) in
                   case getitem df2 (py ''Cleaned_Text'') of
                     Inl e \<Rightarrow> Inl e
                   | Inr cleaned \<Rightarrow>
                       Inr (setitem df2 (py ''Sentiment'')
                              (map (\<lambda>x. Str (get_sentiment polarity (cell_str L x)))
                                 cleaned))))))"

text \<open>
  The \<open>Sentiment\<close> column these lines compute when line 42 does not raise, written out
  for the proofs.
\<close>

definition sentiment_column :: "pylib \<Rightarrow> (pystr \<Rightarrow> real) \<Rightarrow> dataframe \<Rightarrow> pystr list \<Rightarrow> cell list" where
  "sentiment_column L polarity df text_cols =
     map (\<lambda>x. Str (get_sentiment polarity (cell_str L x)))
       (map (\<lambda>x. Str (clean_text L (cell_str L x))) (row_texts L df (named_columns df text_cols)))"

text \<open>\<open>df[column == label]\<close>: the comparison gives a mask, the mask keeps positions.\<close>

definition eq_mask :: "cell list \<Rightarrow> pystr \<Rightarrow> bool list" where
  "eq_mask col label = map (\<lambda>x. x = Str label) col"

definition bool_index :: "dataframe \<Rightarrow> bool list \<Rightarrow> dataframe" where
  "bool_index df msk =
     (let keep = filter (\<lambda>i. msk ! i) [0..<df_len df] in
      \<lparr>df_columns = map (\<lambda>c. c\<lparr>col_values := map (\<lambda>i. col_values c ! i) keep\<rparr>) (df_columns df),
       df_len = length keep\<rparr>)"

text \<open>\<open>len(df[df["Sentiment"] == label])\<close>, lines 76 to 78.\<close>

definition count_label :: "dataframe \<Rightarrow> pystr \<Rightarrow> py_error + nat" where
  "count_label df label =
     (case getitem df (py ''Sentiment'') of
        Inl e \<Rightarrow> Inl e
      | Inr col \<Rightarrow> Inr (df_len (bool_index df (eq_mask col label))))"

text \<open>Lines 132 to 135.\<close>

definition filtered_df :: "dataframe \<Rightarrow> pystr \<Rightarrow> py_error + dataframe" where
  "filtered_df df sentiment_choice =
     (if sentiment_choice \<noteq> py ''All''
      then (case getitem df (py ''Sentiment'') of
              Inl e \<Rightarrow> Inl e
            | Inr col \<Rightarrow> Inr (bool_index df (eq_mask col sentiment_choice)))
      else Inr df)"

text \<open>The rows of a frame, each a list of named cells in column order.\<close>

definition row :: "dataframe \<Rightarrow> nat \<Rightarrow> (pystr \<times> cell) list" where
  "row df i = map (\<lambda>c. (col_name c, col_values c ! i)) (df_columns df)"

definition rows :: "dataframe \<Rightarrow> (pystr \<times> cell) list list" where
  "rows df = map (row df) [0..<df_len df]"

section \<open>The page\<close>

text \<open>
  One run of the script from \<open>if uploaded_file:\<close> on.  What it shows is the list of
  elements it has handed to Streamlit, in order.  The run ends by reaching the end of
  the script, by \<open>st.stop()\<close>, or by an exception that nothing catches.  The static head
  of the page (title, introduction, uploader), the subheaders and the axis labels are
  left out; rounding of the percentage to one decimal and its formatting are not
  modelled, the delta of a metric is the quotient itself.
\<close>

datatype element =
    ErrorBox pystr
  | Metric pystr nat "real option"
  | BarChart "(cell \<times> nat \<times> pystr) list"
  | PieChart "(cell \<times> nat \<times> pystr) list"
  | LineChart "(cell \<times> nat) list"
  | Selectbox "pystr list"
  | Table dataframe
  | DownloadButton pystr dataframe

datatype outcome = Finished | Stopped | Raised py_error

type_synonym page = "element list \<times> outcome"

text \<open>Statements in sequence: what follows a stop or an exception does not run.\<close>

definition and_then :: "page \<Rightarrow> page \<Rightarrow> page" where
  "and_then a b = (case snd a of Finished \<Rightarrow> (fst a @ fst b, snd b) | _ \<Rightarrow> a)"

text \<open>\<open>n/total*100\<close> on Python integers: true division raises on a zero divisor.\<close>

definition percent :: "nat \<Rightarrow> nat \<Rightarrow> py_error + real" where
  "percent n total_rows =
     (if total_rows = 0 then Inl ZeroDivisionError else Inr (real n / real total_rows * 100))"

text \<open>
  \<open>col.metric(label, n, delta=f"{round(n/total*100,1)}%")\<close>: the argument is evaluated
  before the call.
\<close>

definition metric_with_delta :: "pystr \<Rightarrow> nat \<Rightarrow> nat \<Rightarrow> page" where
  "metric_with_delta label n total_rows =
     (case percent n total_rows of
        Inl e \<Rightarrow> ([], Raised e)
      | Inr p \<Rightarrow> ([Metric label n (Some p)], Finished))"

definition summary_tab :: "nat \<Rightarrow> nat \<Rightarrow> nat \<Rightarrow> nat \<Rightarrow> page" where
  "summary_tab total_rows pos neu neg =
     and_then ([Metric (py ''Total Rows'') total_rows None], Finished)
    (and_then (metric_with_delta (py ''Positive'') pos total_rows)
    (and_then (metric_with_delta (py ''Neutral'') neu total_rows)
              (metric_with_delta (py ''Negative'') neg total_rows)))"

text \<open>
  \<open>Series.value_counts()\<close>: the distinct values that are not missing, each with its
  number of occurrences, the most frequent first; values of equal count stay in the
  order of their first occurrence.
\<close>

definition value_counts :: "cell list \<Rightarrow> (cell \<times> nat) list" where
  "value_counts col =
     sort_key (\<lambda>p. - int (snd p))
       (map (\<lambda>x. (x, count_list col x)) (rev (remdups (rev (filter (\<lambda>x. x \<noteq> NaN) col)))))"

text \<open>
  \<open>.plot(kind=..., color=[...])\<close>: bar or wedge number \<open>i\<close> takes colour number \<open>i\<close> of
  the list, cycling through it.
\<close>

definition plot_colored :: "(cell \<times> nat) list \<Rightarrow> pystr list \<Rightarrow> (cell \<times> nat \<times> pystr) list" where
  "plot_colored counts colors =
     map (\<lambda>i. (fst (counts ! i), snd (counts ! i), colors ! (i mod length colors)))
         [0..<length counts]"

definition green_grey_red :: "pystr list" where
  "green_grey_red = [py ''green'', py ''grey'', py ''red'']"

text \<open>
  The three charts of lines 100 to 125.  A run reaches them only with at least one row:
  without rows the summary has raised before.
\<close>

definition charts_tab :: "dataframe \<Rightarrow> page" where
  "charts_tab df =
     (case getitem df (py ''Sentiment'') of
        Inl e \<Rightarrow> ([], Raised e)
      | Inr col \<Rightarrow>
          ([BarChart (plot_colored (value_counts col) green_grey_red),
            PieChart (plot_colored (value_counts col) green_grey_red),
            LineChart (value_counts col)], Finished))"

definition filter_tab :: "dataframe \<Rightarrow> pystr \<Rightarrow> page" where
  "filter_tab df sentiment_choice =
     and_then
       ([Selectbox [py ''All'', py ''Positive'', py ''Neutral'', py ''Negative'']], Finished)
       (case filtered_df df sentiment_choice of
          Inl e \<Rightarrow> ([], Raised e)
        | Inr fdf \<Rightarrow> ([Table fdf, DownloadButton (py ''filtered_reviews.csv'') fdf], Finished))"

text \<open>Lines 75 to 144, on the classified frame.\<close>

definition dashboard :: "dataframe \<Rightarrow> pystr \<Rightarrow> page" where
  "dashboard df sentiment_choice =
     (let total_rows = df_len df in
      case count_label df (py ''Positive'') of
        Inl e \<Rightarrow> ([], Raised e)
      | Inr pos \<Rightarrow>
         (case count_label df (py ''Negative'') of
            Inl e \<Rightarrow> ([], Raised e)
          | Inr neg \<Rightarrow>
             (case count_label df (py ''Neutral'') of
                Inl e \<Rightarrow> ([], Raised e)
              | Inr neu \<Rightarrow>
                  and_then (summary_tab total_rows pos neu neg)
                 (and_then (charts_tab df) (filter_tab df sentiment_choice)))))"

text \<open>
  The script.  \<open>uploaded\<close> is \<open>None\<close> while no file has been chosen; otherwise it is
  what \<open>pd.read_csv\<close> makes of the file, a frame or the exception it raises.
  \<open>sentiment_choice\<close> is the entry chosen in the select box.
\<close>

definition app ::
  "pylib \<Rightarrow> (pystr \<Rightarrow> real) \<Rightarrow> (py_error + dataframe) option \<Rightarrow> pystr \<Rightarrow> page" where
  "app L polarity uploaded sentiment_choice =
     (case uploaded of
        None \<Rightarrow> ([], Finished)
      | Some (Inl e) \<Rightarrow> ([], Raised e)
      | Some (Inr df) \<Rightarrow>
          (let text_cols = select_object df in
           if length text_cols = 0
           then ([ErrorBox (py ''No text columns found in your CSV.'')], Stopped)
           else (case add_sentiment L polarity df text_cols of
                   Inl e \<Rightarrow> ([], Raised e)
                 | Inr cdf \<Rightarrow> dashboard cdf sentiment_choice)))"

section \<open>Sample inputs\<close>

text \<open>
  A scorer that knows two words, a table of three reviews with a numeric column, two
  tables without rows (what \<open>pd.read_csv\<close> makes of a file that is one header line, of one
  and of two names), and a table without any text column.
\<close>

definition example_polarity :: "pystr \<Rightarrow> real" where
  "example_polarity t = (if t = py ''good'' then 1 else if t = py ''bad'' then - 1 else 0)"

definition example_df :: dataframe where
  "example_df =
     \<lparr>df_columns =
        [\<lparr>col_name = py ''id'', col_dtype = Int64, col_values = [Num 1, Num 2, Num 3]\<rparr>,
         \<lparr>col_name = py ''review'', col_dtype = Object,
          col_values = [Str (py ''Bad!''), Str (py ''bad''), Str (py ''GOOD #x'')]\<rparr>],
      df_len = 3\<rparr>"

definition empty_df :: dataframe where
  "empty_df =
     \<lparr>df_columns =
        [\<lparr>col_name = py ''review'', col_dtype = Object, col_values = []\<rparr>],
      df_len = 0\<rparr>"

definition empty_two_df :: dataframe where
  "empty_two_df =
     \<lparr>df_columns =
        [\<lparr>col_name = py ''title'', col_dtype = Object, col_values = []\<rparr>,
         \<lparr>col_name = py ''review'', col_dtype = Object, col_values = []\<rparr>],
      df_len = 0\<rparr>"

definition numeric_df :: dataframe where
  "numeric_df =
     \<lparr>df_columns =
        [\<lparr>col_name = py ''id'', col_dtype = Int64, col_values = [Num 1, Num 2]\<rparr>,
         \<lparr>col_name = py ''score'', col_dtype = Float64, col_values = [Num (1 / 2), NaN]\<rparr>],
      df_len = 2\<rparr>"

section \<open>Properties of the text cleaning\<close>

subsection \<open>The last three steps\<close>

lemma py_space: "py '' '' = [32]"
  by (simp add: py_def)

lemma isspace_32: "isspace L 32"
  by (simp add: isspace_def)

lemma re_sub_other: "re_sub (match_other L) [] s = remove_other L s"
  by (induction s) (auto simp: match_other_def remove_other_def)

lemma re_sub_spaces: "re_sub (match_spaces L) (py '' '') s = collapse L s"
proof (induction L s rule: collapse.induct)
  case (1 L)
  then show ?case by simp
next
  case (2 L c cs)
  show ?case
  proof (cases "isspace L c")
    case True
    then have "match_spaces L (c # cs) = Some (Suc (run_length (isspace L) cs))"
      by (simp add: match_spaces_def run_length_def)
    moreover have "drop (run_length (isspace L) cs) cs = dropWhile (isspace L) cs"
      by (simp add: run_length_def dropWhile_eq_drop)
    ultimately show ?thesis using True 2 by (simp add: py_space)
  next
    case False
    then have "match_spaces L (c # cs) = None"
      by (simp add: match_spaces_def run_length_def)
    then show ?thesis using False 2 by simp
  qed
qed

lemma set_collapse: "set (collapse L s) \<subseteq> {c \<in> set s. \<not> isspace L c} \<union> {32}"
proof (induction L s rule: collapse.induct)
  case (1 L)
  then show ?case by simp
next
  case (2 L c cs)
  have "set (dropWhile (isspace L) cs) \<subseteq> set cs"
    by (simp add: set_dropWhileD subsetI)
  with 2 show ?case by (cases "isspace L c") auto
qed

lemma collapse_hd: "collapse L s = x # r \<Longrightarrow> isspace L x \<Longrightarrow> isspace L (hd s)"
  by (cases s) (auto split: if_splits)

lemma collapse_single: "\<not> sublist [32, 32] (collapse L s)"
proof (induction L s rule: collapse.induct)
  case (1 L)
  then show ?case by simp
next
  case (2 L c cs)
  show ?case
  proof (cases "isspace L c")
    case True
    let ?d = "dropWhile (isspace L) cs"
    have "\<not> prefix [32] (collapse L ?d)"
    proof
      assume "prefix [32] (collapse L ?d)"
      then obtain r where r: "collapse L ?d = 32 # r"
        by (auto simp: prefix_def)
      have "?d \<noteq> []"
      proof
        assume "?d = []"
        then have "collapse L ?d = []" by (simp only: collapse.simps)
        with r show False by simp
      qed
      then have "\<not> isspace L (hd ?d)" by (rule hd_dropWhile)
      moreover have "isspace L (hd ?d)" using collapse_hd [OF r] isspace_32 by simp
      ultimately show False by simp
    qed
    with True 2 show ?thesis by (simp add: sublist_Cons_right)
  next
    case False
    then have "c \<noteq> 32" using isspace_32 by auto
    with False 2 show ?thesis by (simp add: sublist_Cons_right)
  qed
qed

lemma strip_sublist: "sublist (strip L s) s"
proof -
  let ?d = "dropWhile (isspace L) s"
  let ?e = "dropWhile (isspace L) (rev ?d)"
  have "suffix ?e (rev ?d)" by (rule suffix_dropWhile)
  then have "prefix (rev ?e) ?d" by (simp add: suffix_to_prefix)
  then have "sublist (rev ?e) ?d" by (rule prefix_imp_sublist)
  moreover have "sublist ?d s" by (simp add: suffix_dropWhile)
  ultimately show ?thesis unfolding strip_def by (rule sublist_order.order.trans)
qed

lemma last_suffix: "xs = p @ e \<Longrightarrow> e \<noteq> [] \<Longrightarrow> last xs = last e"
  by simp

lemma strip_ends:
  assumes "strip L s \<noteq> []"
  shows "\<not> isspace L (hd (strip L s))" and "\<not> isspace L (last (strip L s))"
proof -
  let ?d = "dropWhile (isspace L) s"
  let ?e = "dropWhile (isspace L) (rev ?d)"
  from assms have e: "?e \<noteq> []" by (simp add: strip_def)
  then have "\<not> isspace L (hd ?e)" by (rule hd_dropWhile)
  then show "\<not> isspace L (last (strip L s))" using e by (simp add: strip_def last_rev)
  have d: "?d \<noteq> []"
  proof
    assume "?d = []"
    then have "?e = []" by (simp only: rev.simps dropWhile.simps)
    with e show False by simp
  qed
  then have nd: "\<not> isspace L (hd ?d)" by (rule hd_dropWhile)
  obtain p where p: "rev ?d = p @ ?e" using suffix_dropWhile [of "isspace L" "rev ?d"]
    by (auto simp: suffix_def)
  then have "last (rev ?d) = last ?e" using e by (rule last_suffix)
  then have "hd ?d = last ?e" using d by (simp add: last_rev)
  then show "\<not> isspace L (hd (strip L s))" using nd e by (simp add: strip_def hd_rev)
qed

lemma clean_text_stages: "clean_text L s = code_order L s"
  by (simp add: clean_text_def code_order_def remove_urls_def remove_mentions_def
      remove_hashtags_def re_sub_other re_sub_spaces)

lemma set_clean_text: "c \<in> set (clean_text L s) \<Longrightarrow> is_az c \<or> c = 32"
proof -
  assume c: "c \<in> set (clean_text L s)"
  obtain t where t: "clean_text L s = strip L (collapse L (remove_other L t))"
    by (simp add: clean_text_stages code_order_def)
  have "set (strip L (collapse L (remove_other L t))) \<subseteq> set (collapse L (remove_other L t))"
    using strip_sublist by (rule set_mono_sublist)
  with c t have "c \<in> set (collapse L (remove_other L t))" by auto
  with set_collapse have "c \<in> {c \<in> set (remove_other L t). \<not> isspace L c} \<union> {32}" by blast
  then show ?thesis by (auto simp: remove_other_def)
qed

lemma clean_text_chars_ends:
  "(\<forall>c \<in> set (clean_text L s). is_az c \<or> c = of_char CHR '' '')
   \<and> \<not> sublist (py ''  '') (clean_text L s)
   \<and> (clean_text L s \<noteq> [] \<longrightarrow>
        \<not> isspace L (hd (clean_text L s)) \<and> \<not> isspace L (last (clean_text L s)))"
proof (intro conjI ballI impI)
  fix c assume "c \<in> set (clean_text L s)"
  then show "is_az c \<or> c = of_char CHR '' ''" using set_clean_text by simp
next
  obtain t where t: "clean_text L s = strip L (collapse L t)"
    by (simp add: clean_text_stages code_order_def)
  show "\<not> sublist (py ''  '') (clean_text L s)"
  proof
    assume "sublist (py ''  '') (clean_text L s)"
    then have "sublist [32, 32] (strip L (collapse L t))" using t by (simp add: py_def)
    then have "sublist [32, 32] (collapse L t)"
      using strip_sublist by (rule sublist_order.order.trans)
    then show False using collapse_single by simp
  qed
next
  obtain t where t: "clean_text L s = strip L t"
    by (simp add: clean_text_stages code_order_def)
  assume "clean_text L s \<noteq> []"
  then show "\<not> isspace L (hd (clean_text L s))" using t strip_ends(1) by simp
next
  obtain t where t: "clean_text L s = strip L t"
    by (simp add: clean_text_stages code_order_def)
  assume "clean_text L s \<noteq> []"
  then show "\<not> isspace L (last (clean_text L s))" using t strip_ends(2) by simp
qed

lemma join_Cons: "ws \<noteq> [] \<Longrightarrow> join sep (w # ws) = w @ sep @ join sep ws"
  by (cases ws) simp_all

lemma words_form:
  assumes "\<forall>c \<in> set t. is_az c \<or> c = 32" and "\<not> sublist [32, 32] t"
    and "t \<noteq> [] \<longrightarrow> hd t \<noteq> 32 \<and> last t \<noteq> 32"
  shows "\<exists>ws. t = join [32] ws \<and> (\<forall>w \<in> set ws. w \<noteq> [] \<and> (\<forall>c \<in> set w. is_az c))"
  using assms
proof (induction t rule: length_induct)
  case (1 t)
  show ?case
  proof (cases "t = []")
    case True
    then have "t = join [32] []" by simp
    then show ?thesis by (metis empty_iff empty_set)
  next
    case False
    let ?w = "takeWhile (\<lambda>c. c \<noteq> 32) t"
    let ?r = "dropWhile (\<lambda>c. c \<noteq> 32) t"
    have t: "t = ?w @ ?r" by simp
    from False 1(4) have "hd t \<noteq> 32" by simp
    with False have w: "?w \<noteq> []" by (cases t) auto
    have waz: "\<forall>c \<in> set ?w. is_az c"
      using 1(2) by (metis set_takeWhileD)
    show ?thesis
    proof (cases "?r = []")
      case True
      then have "t = join [32] [?w]" using t by (metis append_Nil2 join.simps(2))
      with w waz show ?thesis by (metis empty_iff empty_set set_ConsD)
    next
      case r: False
      then have "hd ?r = 32" using hd_dropWhile [of "\<lambda>c. c \<noteq> 32" t] by simp
      then obtain r' where r': "?r = 32 # r'" using r by (cases ?r) auto
      have tr: "t = ?w @ 32 # r'" using t r' by simp
      have ne: "r' \<noteq> []"
      proof
        assume "r' = []"
        then have "last t = 32" using tr by (metis last_snoc)
        with False 1(4) show False by simp
      qed
      have hd: "hd r' \<noteq> 32"
      proof
        assume "hd r' = 32"
        then obtain r'' where "r' = 32 # r''" using ne by (cases r') auto
        then have "t = ?w @ [32, 32] @ r''" using tr by simp
        then have "sublist [32, 32] t" unfolding sublist_def by blast
        with 1(3) show False by simp
      qed
      have "last r' = last t" using tr ne by (metis last_ConsR last_appendR list.distinct(1))
      then have last: "last r' \<noteq> 32" using False 1(4) by simp
      have sub: "sublist r' t"
      proof -
        have "t = (?w @ [32]) @ r' @ []" using tr by simp
        then show ?thesis unfolding sublist_def by blast
      qed
      have "length r' < length t"
      proof -
        have "length t = length ?w + Suc (length r')" using tr by (metis length_append length_Cons)
        then show ?thesis by simp
      qed
      moreover have "\<forall>c \<in> set r'. is_az c \<or> c = 32"
        using 1(2) sub by (meson set_mono_sublist subsetD)
      moreover have "\<not> sublist [32, 32] r'"
        using 1(3) sub by (meson sublist_order.order.trans)
      moreover have "r' \<noteq> [] \<longrightarrow> hd r' \<noteq> 32 \<and> last r' \<noteq> 32" using hd last by simp
      ultimately obtain ws where ws: "r' = join [32] ws"
        and wsaz: "\<forall>w \<in> set ws. w \<noteq> [] \<and> (\<forall>c \<in> set w. is_az c)"
        using 1(1) by blast
      from ws ne have "ws \<noteq> []" by auto
      then have "join [32] (?w # ws) = ?w @ [32] @ join [32] ws" by (rule join_Cons)
      then have "t = join [32] (?w # ws)" using tr ws by simp
      moreover have "\<forall>x \<in> set (?w # ws). x \<noteq> [] \<and> (\<forall>c \<in> set x. is_az c)"
        using w waz wsaz by simp
      ultimately show ?thesis by blast
    qed
  qed
qed

subsection \<open>ASCII input does not consult the library\<close>

lemma isspace_ascii: "c < 128 \<Longrightarrow> isspace L c = isspace L' c"
  by (simp add: isspace_def)

lemma isword_ascii: "c < 128 \<Longrightarrow> isword L c = isword L' c"
  by (simp add: isword_def)

lemma run_length_cong: "(\<And>x. x \<in> set s \<Longrightarrow> P x = Q x) \<Longrightarrow> run_length P s = run_length Q s"
  unfolding run_length_def by (simp cong: takeWhile_cong)

lemma lower_ascii:
  assumes "\<forall>c \<in> set s. c < 128"
  shows "lower L s = map (\<lambda>c. if 65 \<le> c \<and> c \<le> 90 then c + 32 else c) s"
proof -
  let ?f = "\<lambda>c::nat. if 65 \<le> c \<and> c \<le> 90 then c + 32 else c"
  have "map (\<lambda>i. let c = s ! i in
                 if c < 128 then [if 65 \<le> c \<and> c \<le> 90 then c + 32 else c]
                 else uni_lower L s i) [0..<length s]
        = map (\<lambda>i. [?f (s ! i)]) [0..<length s]"
    using assms by (intro map_cong) (simp_all add: Let_def)
  then have "lower L s = concat (map (\<lambda>i. [?f (s ! i)]) [0..<length s])"
    unfolding lower_def by (rule arg_cong)
  also have "\<dots> = map (\<lambda>i. ?f (s ! i)) [0..<length s]"
    by (rule concat_map_singleton)
  also have "\<dots> = map ?f (map (\<lambda>i. s ! i) [0..<length s])" by simp
  also have "\<dots> = map ?f s" by (simp only: map_nth)
  finally show ?thesis .
qed

lemma set_re_sub: "set (re_sub m r s) \<subseteq> set s \<union> set r"
proof (induction m r s rule: re_sub.induct)
  case (1 m repl)
  then show ?case by simp
next
  case (2 m repl c cs)
  show ?case
  proof (cases "m (c # cs)")
    case None
    with 2 show ?thesis by auto
  next
    case (Some k)
    show ?thesis
    proof (cases k)
      case 0
      with Some 2 show ?thesis by auto
    next
      case (Suc n)
      have "set (drop n cs) \<subseteq> set cs" by (rule set_drop_subset)
      with Suc Some 2 show ?thesis by auto
    qed
  qed
qed

lemma re_sub_cong:
  "(\<And>t. set t \<subseteq> set s \<Longrightarrow> m t = m' t) \<Longrightarrow> re_sub m r s = re_sub m' r s"
proof (induction m r s rule: re_sub.induct)
  case (1 m repl)
  then show ?case by simp
next
  case (2 m repl c cs)
  have eq: "m (c # cs) = m' (c # cs)" using 2(4) by simp
  have sub: "\<And>t. set t \<subseteq> set cs \<Longrightarrow> m t = m' t" using 2(4) by auto
  show ?case
  proof (cases "m (c # cs)")
    case None
    with 2 eq sub show ?thesis by simp
  next
    case (Some k)
    show ?thesis
    proof (cases k)
      case 0
      with Some 2 eq sub show ?thesis by simp
    next
      case (Suc n)
      have "set (drop n cs) \<subseteq> set cs" by (rule set_drop_subset)
      then have "\<And>t. set t \<subseteq> set (drop n cs) \<Longrightarrow> m t = m' t" using sub by blast
      with Suc Some 2 eq show ?thesis by simp
    qed
  qed
qed

lemma match_url_ascii: "\<forall>c \<in> set s. c < 128 \<Longrightarrow> match_url L s = match_url L' s"
proof -
  assume a: "\<forall>c \<in> set s. c < 128"
  have "run_length (\<lambda>c. \<not> isspace L c) (drop n s) = run_length (\<lambda>c. \<not> isspace L' c) (drop n s)" for n
    using a by (intro run_length_cong) (auto dest!: in_set_dropD simp: isspace_ascii [of _ L L'])
  then show ?thesis by (simp add: match_url_def)
qed

lemma match_tag_ascii: "\<forall>c \<in> set s. c < 128 \<Longrightarrow> match_tag L g s = match_tag L' g s"
proof (cases s)
  case Nil
  then show ?thesis by (simp add: match_tag_def)
next
  case (Cons c cs)
  assume a: "\<forall>c \<in> set s. c < 128"
  have "run_length (isword L) cs = run_length (isword L') cs"
    using a Cons by (intro run_length_cong) (auto simp: isword_ascii [of _ L L'])
  then show ?thesis using Cons by (simp add: match_tag_def)
qed

lemma remove_other_ascii: "\<forall>c \<in> set s. c < 128 \<Longrightarrow> remove_other L s = remove_other L' s"
  unfolding remove_other_def by (auto intro!: filter_cong simp: isspace_ascii [of _ L L'])

lemma collapse_ascii: "\<forall>c \<in> set s. c < 128 \<Longrightarrow> collapse L s = collapse L' s"
proof -
  assume a: "\<forall>c \<in> set s. c < 128"
  have m: "match_spaces L t = match_spaces L' t" if "set t \<subseteq> set s" for t
  proof -
    have "run_length (isspace L) t = run_length (isspace L') t"
      using a that by (intro run_length_cong) (auto simp: isspace_ascii [of _ L L'])
    then show ?thesis by (simp add: match_spaces_def)
  qed
  have "re_sub (match_spaces L) (py '' '') s = re_sub (match_spaces L') (py '' '') s"
    using m by (rule re_sub_cong)
  then show ?thesis by (simp add: re_sub_spaces)
qed

lemma strip_ascii: "\<forall>c \<in> set s. c < 128 \<Longrightarrow> strip L s = strip L' s"
proof -
  assume a: "\<forall>c \<in> set s. c < 128"
  have 1: "dropWhile (isspace L) s = dropWhile (isspace L') s"
    using a by (intro dropWhile_cong) (auto simp: isspace_ascii [of _ L L'])
  have "\<forall>c \<in> set (rev (dropWhile (isspace L') s)). c < 128"
    using a by (auto dest: set_dropWhileD)
  then have "dropWhile (isspace L) (rev (dropWhile (isspace L') s))
      = dropWhile (isspace L') (rev (dropWhile (isspace L') s))"
    by (intro dropWhile_cong) (auto simp: isspace_ascii [of _ L L'])
  with 1 show ?thesis by (simp add: strip_def)
qed

lemma clean_text_ascii:
  assumes "\<forall>c \<in> set s. c < 128"
  shows "clean_text L s = clean_text L' s"
proof -
  let ?t1 = "lower L s"
  have l: "lower L s = lower L' s" using assms by (simp add: lower_ascii)
  have a1: "\<forall>c \<in> set ?t1. c < 128" using assms by (auto simp: lower_ascii)
  have u: "remove_urls L ?t1 = remove_urls L' ?t1"
    unfolding remove_urls_def using a1 by (intro re_sub_cong match_url_ascii) blast
  let ?t2 = "remove_urls L ?t1"
  have a2: "\<forall>c \<in> set ?t2. c < 128"
    unfolding remove_urls_def using a1 set_re_sub [of "match_url L" "[]" ?t1] by auto
  have m: "remove_mentions L ?t2 = remove_mentions L' ?t2"
    unfolding remove_mentions_def using a2 by (intro re_sub_cong match_tag_ascii) blast
  let ?t3 = "remove_mentions L ?t2"
  have a3: "\<forall>c \<in> set ?t3. c < 128"
    unfolding remove_mentions_def
    using a2 set_re_sub [of "match_tag L (of_char CHR ''@'')" "[]" ?t2] by auto
  have h: "remove_hashtags L ?t3 = remove_hashtags L' ?t3"
    unfolding remove_hashtags_def using a3 by (intro re_sub_cong match_tag_ascii) blast
  let ?t4 = "remove_hashtags L ?t3"
  have a4: "\<forall>c \<in> set ?t4. c < 128"
    unfolding remove_hashtags_def
    using a3 set_re_sub [of "match_tag L (of_char CHR ''#'')" "[]" ?t3] by auto
  have o: "remove_other L ?t4 = remove_other L' ?t4" using a4 by (rule remove_other_ascii)
  let ?t5 = "remove_other L ?t4"
  have a5: "\<forall>c \<in> set ?t5. c < 128" using a4 by (simp add: remove_other_def)
  have c: "collapse L ?t5 = collapse L' ?t5" using a5 by (rule collapse_ascii)
  have a6: "\<forall>c \<in> set (collapse L ?t5). c < 128"
    using a5 set_collapse [of L ?t5] by auto
  have s: "strip L (collapse L ?t5) = strip L' (collapse L ?t5)" using a6 by (rule strip_ascii)
  show ?thesis
    unfolding clean_text_stages code_order_def using l u m h o c s by simp
qed

section \<open>The claims about the text cleaning\<close>

text \<open>
  C1, as stated, fails: for the input \<open>Check this out http://x.co #great @bob!!!\<close> the
  cleaned text is not \<open>check this out great\<close>.  The pattern \<open>#\w+\<close> deletes the hashtag
  together with its word.
\<close>

theorem clean_text_example_counterexample:
  "clean_text ascii_lib (py ''Check this out http://x.co #great @bob!!!'')
     \<noteq> py ''check this out great''"
  by code_simp

text \<open>
  C1, amended: for the input \<open>Check this out http://x.co #great @bob!!!\<close> the cleaned
  text is \<open>check this out\<close>, whatever the library says beyond ASCII; and a text whose
  polarity score is positive is labelled \<open>Positive\<close>.
\<close>

theorem clean_text_example:
  "clean_text L (py ''Check this out http://x.co #great @bob!!!'') = py ''check this out''
   \<and> (\<forall>polarity text. 0 < polarity text \<longrightarrow> get_sentiment polarity text = py ''Positive'')"
proof
  have "\<forall>c \<in> set (py ''Check this out http://x.co #great @bob!!!''). c < 128"
    by (simp add: py_def)
  then have "clean_text L (py ''Check this out http://x.co #great @bob!!!'')
      = clean_text ascii_lib (py ''Check this out http://x.co #great @bob!!!'')"
    by (rule clean_text_ascii)
  also have "\<dots> = py ''check this out''" by code_simp
  finally show "clean_text L (py ''Check this out http://x.co #great @bob!!!'')
      = py ''check this out''" .
  show "\<forall>polarity text. 0 < polarity text \<longrightarrow> get_sentiment polarity text = py ''Positive''"
    by (simp add: get_sentiment_def)
qed

theorem clean_text_example_witness:
  "(0::real) < 1 / 2
   \<and> clean_text ascii_lib (py ''Check this out http://x.co #great @bob!!!'')
       = py ''check this out''
   \<and> get_sentiment (\<lambda>t. 1 / 2) (py ''check this out'') = py ''Positive''"
  using clean_text_example [of ascii_lib] by simp

text \<open>
  C2, as stated, fails: the order of the specification (lower-casing fourth) and the
  function differ on \<open>HTTP://x.co\<close>.  The function lower-cases first, so the address is
  removed as a whole; in the order of the specification the upper-case address
  survives the URL step and its letters remain.
\<close>

theorem clean_text_order_counterexample:
  "clean_text ascii_lib (py ''HTTP://x.co'') = []
   \<and> spec_order ascii_lib (py ''HTTP://x.co'') = py ''httpxco''"
  by code_simp

text \<open>
  C2, amended: for every input string the function is the composition, in this order,
  of lower-casing, URL removal, mention removal, hashtag removal, removal of every
  character outside \<open>[a-z]\<close> and whitespace, collapsing of whitespace, and trimming.
\<close>

theorem clean_text_order:
  "clean_text L s =
     strip L (collapse L (remove_other L
       (remove_hashtags L (remove_mentions L (remove_urls L (lower L s))))))"
  by (simp add: clean_text_def remove_urls_def remove_mentions_def remove_hashtags_def
      re_sub_other re_sub_spaces)

text \<open>
  C4: for every input string the cleaned text consists of letters \<open>a\<close> to \<open>z\<close> and
  spaces only, never has two spaces in a row, and when it is not empty neither starts
  nor ends with whitespace; that is, it is a list of non-empty words of letters
  \<open>a\<close> to \<open>z\<close> joined by single spaces (no word: the empty string).
\<close>

theorem clean_text_shape:
  "(\<forall>c \<in> set (clean_text L s). is_az c \<or> c = of_char CHR '' '')
   \<and> \<not> sublist (py ''  '') (clean_text L s)
   \<and> (clean_text L s \<noteq> [] \<longrightarrow>
        \<not> isspace L (hd (clean_text L s)) \<and> \<not> isspace L (last (clean_text L s)))
   \<and> (\<exists>ws. clean_text L s = join (py '' '') ws
          \<and> (\<forall>w \<in> set ws. w \<noteq> [] \<and> (\<forall>c \<in> set w. is_az c)))"
proof -
  let ?t = "clean_text L s"
  have a: "\<forall>c \<in> set ?t. is_az c \<or> c = 32"
    and b: "\<not> sublist [32, 32] ?t"
    and c: "?t \<noteq> [] \<longrightarrow> \<not> isspace L (hd ?t) \<and> \<not> isspace L (last ?t)"
    using clean_text_chars_ends [of L s] by (simp_all add: py_def)
  from c have "?t \<noteq> [] \<longrightarrow> hd ?t \<noteq> 32 \<and> last ?t \<noteq> 32"
    using isspace_32 [of L] by metis
  with a b have "\<exists>ws. ?t = join [32] ws \<and> (\<forall>w \<in> set ws. w \<noteq> [] \<and> (\<forall>c \<in> set w. is_az c))"
    by (rule words_form)
  with a b c show ?thesis by (simp add: py_def)
qed

theorem clean_text_shape_witness:
  "clean_text ascii_lib (py ''  Hi @you, 2 B or   not 2 B?  '') = py ''hi b or not b''
   \<and> list_all (\<lambda>c. is_az c \<or> c = of_char CHR '' '') (py ''hi b or not b'')
   \<and> \<not> sublist (py ''  '') (py ''hi b or not b'')
   \<and> \<not> isspace ascii_lib (hd (py ''hi b or not b''))
   \<and> \<not> isspace ascii_lib (last (py ''hi b or not b''))
   \<and> py ''hi b or not b'' = join (py '' '') [py ''hi'', py ''b'', py ''or'', py ''not'', py ''b'']"
proof -
  have v: "clean_text ascii_lib (py ''  Hi @you, 2 B or   not 2 B?  '') = py ''hi b or not b''"
    by code_simp
  have ne: "py ''hi b or not b'' \<noteq> []" by (simp add: py_def)
  have j: "py ''hi b or not b''
      = join (py '' '') [py ''hi'', py ''b'', py ''or'', py ''not'', py ''b'']"
    by (simp add: py_def)
  show ?thesis
    using v ne j clean_text_shape [of ascii_lib "py ''  Hi @you, 2 B or   not 2 B?  ''"]
    by (simp add: list_all_iff)
qed


section \<open>Properties of the table operations\<close>

lemma find_app:
  "find P (xs @ ys) = (case find P xs of None \<Rightarrow> find P ys | Some x \<Rightarrow> Some x)"
  by (induction xs) auto

lemma find_map_upd:
  "n \<in> col_name ` set cs \<Longrightarrow>
   find (\<lambda>c. col_name c = n)
     (map (\<lambda>c. if col_name c = n then c\<lparr>col_dtype := Object, col_values := v\<rparr> else c) cs)
   \<noteq> None \<and>
   col_values (the (find (\<lambda>c. col_name c = n)
     (map (\<lambda>c. if col_name c = n then c\<lparr>col_dtype := Object, col_values := v\<rparr> else c) cs))) = v"
  by (induction cs) auto

lemma getitem_setitem: "getitem (setitem df n v) n = Inr v"
proof (cases "n \<in> col_name ` set (df_columns df)")
  case True
  from find_map_upd [OF True, of v] show ?thesis
    using True by (auto simp: getitem_def setitem_def split: option.splits)
next
  case False
  then have "find (\<lambda>c. col_name c = n) (df_columns df) = None"
    by (auto simp: find_None_iff)
  with False show ?thesis
    by (simp add: getitem_def setitem_def find_app)
qed

lemma find_map_other:
  "n \<noteq> m \<Longrightarrow>
   map_option col_values (find (\<lambda>c. col_name c = m)
     (map (\<lambda>c. if col_name c = n then c\<lparr>col_dtype := Object, col_values := v\<rparr> else c) cs))
   = map_option col_values (find (\<lambda>c. col_name c = m) cs)"
  by (induction cs) auto

lemma getitem_map_option:
  "getitem df m = (case map_option col_values (find (\<lambda>c. col_name c = m) (df_columns df)) of
      None \<Rightarrow> Inl KeyError | Some v \<Rightarrow> Inr v)"
  by (simp add: getitem_def split: option.splits)

lemma getitem_setitem_other: "n \<noteq> m \<Longrightarrow> getitem (setitem df n v) m = getitem df m"
proof (cases "n \<in> col_name ` set (df_columns df)")
  case True
  assume "n \<noteq> m"
  then show ?thesis using True
    by (simp add: getitem_map_option setitem_def find_map_other)
next
  case False
  assume "n \<noteq> m"
  then show ?thesis using False
    by (auto simp: getitem_def setitem_def find_app split: option.splits)
qed

lemma df_len_setitem: "df_len (setitem df n v) = df_len df"
  by (simp add: setitem_def)

lemma getitems_present:
  "getitems df names =
     (if names_present df names then Inr (named_columns df names) else Inl KeyError)"
  by (simp add: getitems_def)

lemma select_object_present: "names_present df (select_object df)"
  by (auto simp: names_present_def select_object_def list_all_iff)

lemma assign_combined:
  "(case agg_join L df text_cols of
      Inl e \<Rightarrow> Inl e
    | Inr joined \<Rightarrow> setitem_agg L df name joined) =
     (if \<not> names_present df text_cols then Inl KeyError
      else if df_len df = 0 \<and> 2 \<le> length (named_columns df text_cols) then Inl ValueError
      else Inr (setitem df name (row_texts L df (named_columns df text_cols))))"
proof (cases "named_columns df text_cols")
  case Nil
  then show ?thesis by (simp add: setitem_agg_def agg_join_def getitems_present)
next
  case (Cons c cs)
  then show ?thesis
    by (cases cs) (simp_all add: setitem_agg_def agg_join_def getitems_present)
qed

lemma add_sentiment_cases:
  "add_sentiment L polarity df text_cols =
     (if \<not> names_present df text_cols then Inl KeyError
      else if df_len df = 0 \<and> 2 \<le> length (named_columns df text_cols) then Inl ValueError
      else Inr (setitem
             (setitem
                (setitem df (py ''Combined_Text'') (row_texts L df (named_columns df text_cols)))
                (py ''Cleaned_Text'')
                (map (\<lambda>x. Str (clean_text L (cell_str L x)))
                   (row_texts L df (named_columns df text_cols))))
             (py ''Sentiment'') (sentiment_column L polarity df text_cols)))"
proof -
  have "add_sentiment L polarity df text_cols =
     (case (case agg_join L df text_cols of
              Inl e \<Rightarrow> Inl e
            | Inr joined \<Rightarrow> setitem_agg L df (py ''Combined_Text'') joined) of
        Inl e \<Rightarrow> Inl e
      | Inr df1 \<Rightarrow>
         (case getitem df1 (py ''Combined_Text'') of
            Inl e \<Rightarrow> Inl e
          | Inr combined \<Rightarrow>
              (let df2 = setitem df1 (py ''Cleaned_Text'')
                           (map (\<lambda>x. Str (clean_text L (cell_str L x))) combined) in
               case getitem df2 (py ''Cleaned_Text'') of
                 Inl e \<Rightarrow> Inl e
               | Inr cleaned \<Rightarrow>
                   Inr (setitem df2 (py ''Sentiment'')
                          (map (\<lambda>x. Str (get_sentiment polarity (cell_str L x)))
                             cleaned)))))"
    by (simp add: add_sentiment_def split: sum.splits)
  then show ?thesis
    by (simp add: assign_combined getitem_setitem sentiment_column_def)
qed

lemma add_sentiment_Inr:
  assumes "add_sentiment L polarity df text_cols = Inr cdf"
  shows "getitem cdf (py ''Sentiment'') = Inr (sentiment_column L polarity df text_cols)"
    and "getitem cdf (py ''Cleaned_Text'')
         = Inr (map (\<lambda>x. Str (clean_text L (cell_str L x)))
                  (row_texts L df (named_columns df text_cols)))"
    and "df_len cdf = df_len df"
proof -
  have ne: "py ''Sentiment'' \<noteq> py ''Cleaned_Text''" by (simp add: py_def)
  from assms have cdf: "cdf = setitem
             (setitem
                (setitem df (py ''Combined_Text'') (row_texts L df (named_columns df text_cols)))
                (py ''Cleaned_Text'')
                (map (\<lambda>x. Str (clean_text L (cell_str L x)))
                   (row_texts L df (named_columns df text_cols))))
             (py ''Sentiment'') (sentiment_column L polarity df text_cols)"
    by (simp add: add_sentiment_cases split: if_splits)
  show "getitem cdf (py ''Sentiment'') = Inr (sentiment_column L polarity df text_cols)"
    by (simp add: cdf getitem_setitem)
  show "getitem cdf (py ''Cleaned_Text'')
         = Inr (map (\<lambda>x. Str (clean_text L (cell_str L x)))
                  (row_texts L df (named_columns df text_cols)))"
    by (simp add: cdf getitem_setitem getitem_setitem_other ne)
  show "df_len cdf = df_len df"
    by (simp add: cdf df_len_setitem)
qed

lemma add_sentiment_rows:
  "0 < df_len df \<Longrightarrow> names_present df text_cols \<Longrightarrow>
   \<exists>cdf. add_sentiment L polarity df text_cols = Inr cdf"
  by (simp add: add_sentiment_cases)

lemma filter_name_single:
  "distinct (map f cs) \<Longrightarrow> y \<in> set cs \<Longrightarrow> filter (\<lambda>c. f c = f y) cs = [y]"
proof (induction cs)
  case Nil
  then show ?case by simp
next
  case (Cons c cs)
  show ?case
  proof (cases "c = y")
    case True
    from Cons(2) have n: "f c \<notin> f ` set cs" by simp
    have "f x \<noteq> f c" if "x \<in> set cs" for x
      using that n by (metis imageI)
    with True have "filter (\<lambda>c. f c = f y) cs = []"
      by (simp add: filter_empty_conv)
    with True show ?thesis by simp
  next
    case False
    with Cons(3) have y: "y \<in> set cs" by simp
    with Cons(2) have "f c \<noteq> f y" by auto
    with Cons y show ?thesis by simp
  qed
qed

lemma getitems_select_object:
  assumes "distinct (map col_name (df_columns df))"
  shows "named_columns df (select_object df)
     = filter (\<lambda>c. col_dtype c = Object) (df_columns df)"
proof -
  let ?ys = "filter (\<lambda>c. col_dtype c = Object) (df_columns df)"
  have "map (\<lambda>y. filter (\<lambda>c. col_name c = col_name y) (df_columns df)) ?ys
      = map (\<lambda>y. [y]) ?ys"
    using assms by (intro map_cong) (simp_all add: filter_name_single)
  then have "concat (map (\<lambda>y. filter (\<lambda>c. col_name c = col_name y) (df_columns df)) ?ys) = ?ys"
    by (simp only: concat_map_singleton) simp
  then show ?thesis by (simp add: named_columns_def select_object_def comp_def)
qed

lemma length_sentiment_column:
  "length (sentiment_column L polarity df text_cols) = df_len df"
  by (simp add: sentiment_column_def row_texts_def)

lemma labels_distinct:
  "py ''Positive'' \<noteq> py ''Negative''" "py ''Positive'' \<noteq> py ''Neutral''"
  "py ''Negative'' \<noteq> py ''Neutral''" "py ''All'' \<noteq> py ''Positive''"
  "py ''All'' \<noteq> py ''Negative''" "py ''All'' \<noteq> py ''Neutral''"
  by (simp_all add: py_def)

lemma filter_index:
  "map (\<lambda>i. xs ! i) (filter (\<lambda>i. P (xs ! i)) [0..<length xs]) = filter P xs"
proof -
  have "map (\<lambda>i. xs ! i) (filter (\<lambda>i. P (xs ! i)) [0..<length xs])
      = filter P (map (\<lambda>i. xs ! i) [0..<length xs])"
    by (simp add: filter_map comp_def)
  then show ?thesis by (simp only: map_nth)
qed

lemma eq_mask_nth:
  "i < length col \<Longrightarrow> eq_mask col label ! i = (col ! i = Str label)"
  by (simp add: eq_mask_def)

lemma keep_eq:
  "filter (\<lambda>i. eq_mask col label ! i) [0..<length col]
     = filter (\<lambda>i. col ! i = Str label) [0..<length col]"
  by (rule filter_cong) (simp_all add: eq_mask_nth)

lemma df_len_bool_index:
  "length col = df_len df \<Longrightarrow>
   df_len (bool_index df (eq_mask col label)) = length (filter (\<lambda>x. x = Str label) col)"
proof -
  assume l: "length col = df_len df"
  have "length (filter (\<lambda>i. col ! i = Str label) [0..<length col])
      = length (map (\<lambda>i. col ! i) (filter (\<lambda>i. col ! i = Str label) [0..<length col]))"
    by simp
  also have "\<dots> = length (filter (\<lambda>x. x = Str label) col)"
    by (simp only: filter_index [of col "\<lambda>x. x = Str label"])
  finally show ?thesis using l keep_eq [of col label]
    by (simp add: bool_index_def Let_def)
qed

lemma three_way_count:
  "(\<And>x. x \<in> set xs \<Longrightarrow> x = a \<or> x = b \<or> x = c) \<Longrightarrow> a \<noteq> b \<Longrightarrow> a \<noteq> c \<Longrightarrow> b \<noteq> c \<Longrightarrow>
   length (filter (\<lambda>x. x = a) xs) + length (filter (\<lambda>x. x = b) xs)
     + length (filter (\<lambda>x. x = c) xs) = length xs"
  by (induction xs) auto

lemma sentiment_column_labels:
  "x \<in> set (sentiment_column L polarity df text_cols) \<Longrightarrow>
   x = Str (py ''Positive'') \<or> x = Str (py ''Neutral'') \<or> x = Str (py ''Negative'')"
  by (auto simp: sentiment_column_def get_sentiment_def)

lemma rows_bool_index:
  "rows (bool_index df msk) = map (row df) (filter (\<lambda>i. msk ! i) [0..<df_len df])"
proof -
  let ?keep = "filter (\<lambda>i. msk ! i) [0..<df_len df]"
  have "row (bool_index df msk) j = row df (?keep ! j)" if "j < length ?keep" for j
    using that by (simp add: row_def bool_index_def Let_def)
  then have "map (row (bool_index df msk)) [0..<length ?keep]
      = map (\<lambda>j. row df (?keep ! j)) [0..<length ?keep]"
    by (intro map_cong) simp_all
  also have "\<dots> = map (row df) (map (\<lambda>j. ?keep ! j) [0..<length ?keep])" by simp
  also have "\<dots> = map (row df) ?keep" by (simp only: map_nth)
  finally show ?thesis by (simp add: rows_def bool_index_def Let_def)
qed

lemma map_of_row:
  assumes "getitem df n = Inr col"
  shows "map_of (row df i) n = Some (col ! i)"
proof -
  have h: "map_of (map (\<lambda>c. (col_name c, col_values c ! i)) cs) n
      = map_option (\<lambda>c. col_values c ! i) (find (\<lambda>c. col_name c = n) cs)" for cs
    by (induction cs) auto
  from assms obtain c where "find (\<lambda>c. col_name c = n) (df_columns df) = Some c"
    and "col = col_values c"
    by (auto simp: getitem_def split: option.splits)
  then show ?thesis by (simp add: row_def h)
qed

lemma rows_filtered:
  assumes col: "getitem df (py ''Sentiment'') = Inr col" and len: "length col = df_len df"
  shows "rows (bool_index df (eq_mask col label))
     = filter (\<lambda>r. map_of r (py ''Sentiment'') = Some (Str label)) (rows df)"
proof -
  have k: "filter (\<lambda>i. eq_mask col label ! i) [0..<df_len df]
      = filter (\<lambda>i. map_of (row df i) (py ''Sentiment'') = Some (Str label)) [0..<df_len df]"
    using len by (intro filter_cong) (simp_all add: eq_mask_nth map_of_row [OF col])
  have "rows (bool_index df (eq_mask col label))
      = map (row df) (filter (\<lambda>i. eq_mask col label ! i) [0..<df_len df])"
    by (rule rows_bool_index)
  also have "\<dots> = map (row df)
      (filter (\<lambda>i. map_of (row df i) (py ''Sentiment'') = Some (Str label)) [0..<df_len df])"
    by (simp only: k)
  also have "\<dots> = filter (\<lambda>r. map_of r (py ''Sentiment'') = Some (Str label))
      (map (row df) [0..<df_len df])"
    by (simp add: filter_map comp_def)
  finally show ?thesis by (simp add: rows_def)
qed

lemma summary_tab_zero:
  "summary_tab 0 pos neu neg = ([Metric (py ''Total Rows'') 0 None], Raised ZeroDivisionError)"
  by (simp add: summary_tab_def and_then_def metric_with_delta_def percent_def)

lemma count_label_Inr:
  "getitem df (py ''Sentiment'') = Inr col \<Longrightarrow> \<exists>n. count_label df label = Inr n"
  by (simp add: count_label_def)

lemma zero_rows_two_columns:
  assumes "distinct (map col_name (df_columns df))"
    and "2 \<le> length (select_object df)" and "df_len df = 0"
  shows "app L polarity (Some (Inr df)) sentiment_choice = ([], Raised ValueError)"
proof -
  from assms(2) have t: "select_object df \<noteq> []" by auto
  have "2 \<le> length (named_columns df (select_object df))"
    using getitems_select_object [OF assms(1)] assms(2) by (simp add: select_object_def)
  then have "add_sentiment L polarity df (select_object df) = Inl ValueError"
    using assms(3) by (simp add: add_sentiment_cases select_object_present)
  with t show ?thesis by (simp add: app_def)
qed

section \<open>The claims about the table\<close>

text \<open>
  C5: on every classified table, that is whenever lines 42 to 70 have run through, the
  numbers of rows labelled \<open>Positive\<close>, \<open>Neutral\<close> and \<open>Negative\<close>, as lines 76 to 78
  count them, add up to the number of rows.
\<close>

theorem label_counts_partition:
  assumes "add_sentiment L polarity df text_cols = Inr cdf"
  shows "\<exists>pos neu neg.
     count_label cdf (py ''Positive'') = Inr pos
     \<and> count_label cdf (py ''Neutral'') = Inr neu
     \<and> count_label cdf (py ''Negative'') = Inr neg
     \<and> pos + neu + neg = df_len cdf"
proof -
  let ?col = "sentiment_column L polarity df text_cols"
  have col: "getitem cdf (py ''Sentiment'') = Inr ?col"
    and len: "df_len cdf = df_len df"
    using add_sentiment_Inr [OF assms] by simp_all
  have l: "length ?col = df_len cdf" using len by (simp add: length_sentiment_column)
  have c: "count_label cdf label = Inr (length (filter (\<lambda>x. x = Str label) ?col))" for label
    using col l by (simp add: count_label_def df_len_bool_index)
  have "length (filter (\<lambda>x. x = Str (py ''Positive'')) ?col)
      + length (filter (\<lambda>x. x = Str (py ''Neutral'')) ?col)
      + length (filter (\<lambda>x. x = Str (py ''Negative'')) ?col) = length ?col"
    using sentiment_column_labels labels_distinct by (intro three_way_count) auto
  with c l show ?thesis by simp
qed

theorem label_counts_partition_witness:
  "\<exists>cdf. add_sentiment ascii_lib example_polarity example_df (select_object example_df) = Inr cdf
     \<and> count_label cdf (py ''Positive'') = Inr 1
     \<and> count_label cdf (py ''Neutral'') = Inr 0
     \<and> count_label cdf (py ''Negative'') = Inr 2
     \<and> df_len cdf = 3"
proof -
  have "0 < df_len example_df" by (simp add: example_df_def)
  then obtain cdf where
    c: "add_sentiment ascii_lib example_polarity example_df (select_object example_df) = Inr cdf"
    using add_sentiment_rows select_object_present by blast
  have v: "case add_sentiment ascii_lib example_polarity example_df (select_object example_df) of
             Inl e \<Rightarrow> False
           | Inr cdf \<Rightarrow>
               count_label cdf (py ''Positive'') = Inr 1
               \<and> count_label cdf (py ''Negative'') = Inr 2"
    by code_simp
  from label_counts_partition [OF c] obtain pos neu neg where
    "count_label cdf (py ''Positive'') = Inr pos"
    "count_label cdf (py ''Neutral'') = Inr neu"
    "count_label cdf (py ''Negative'') = Inr neg"
    "pos + neu + neg = df_len cdf"
    by blast
  moreover have "df_len cdf = 3"
    using add_sentiment_Inr(3) [OF c] by (simp add: example_df_def)
  ultimately show ?thesis using c v by auto
qed

text \<open>
  C3: the label is \<open>Positive\<close> exactly when the score of the text is above zero,
  \<open>Negative\<close> exactly when it is below zero and \<open>Neutral\<close> exactly when it is zero; two
  texts whose scores have the same sign get the same label, whatever the scorer; and
  on every classified table the \<open>Sentiment\<close> column is this function applied to the
  \<open>Cleaned_Text\<close> column, cell by cell.
\<close>

theorem sentiment_by_sign:
  "(get_sentiment polarity text = py ''Positive'') = (0 < polarity text)
   \<and> (get_sentiment polarity text = py ''Negative'') = (polarity text < 0)
   \<and> (get_sentiment polarity text = py ''Neutral'') = (polarity text = 0)
   \<and> (sgn (polarity text) = sgn (polarity' text') \<longrightarrow>
        get_sentiment polarity text = get_sentiment polarity' text')
   \<and> (add_sentiment L polarity df text_cols = Inr cdf \<longrightarrow>
        (\<exists>cleaned.
           getitem cdf (py ''Cleaned_Text'') = Inr cleaned
           \<and> getitem cdf (py ''Sentiment'')
               = Inr (map (\<lambda>x. Str (get_sentiment polarity (cell_str L x))) cleaned)))"
proof (intro conjI impI)
  show "(get_sentiment polarity text = py ''Positive'') = (0 < polarity text)"
    using labels_distinct by (auto simp: get_sentiment_def)
  show "(get_sentiment polarity text = py ''Negative'') = (polarity text < 0)"
    using labels_distinct by (auto simp: get_sentiment_def)
  show "(get_sentiment polarity text = py ''Neutral'') = (polarity text = 0)"
    using labels_distinct by (auto simp: get_sentiment_def)
  show "get_sentiment polarity text = get_sentiment polarity' text'"
    if "sgn (polarity text) = sgn (polarity' text')"
  proof -
    have "0 < polarity text \<longleftrightarrow> 0 < polarity' text'"
      using that by (metis sgn_greater)
    moreover have "polarity text < 0 \<longleftrightarrow> polarity' text' < 0"
      using that by (metis sgn_less)
    ultimately show ?thesis by (simp add: get_sentiment_def)
  qed
  show "\<exists>cleaned.
           getitem cdf (py ''Cleaned_Text'') = Inr cleaned
           \<and> getitem cdf (py ''Sentiment'')
               = Inr (map (\<lambda>x. Str (get_sentiment polarity (cell_str L x))) cleaned)"
    if "add_sentiment L polarity df text_cols = Inr cdf"
    using add_sentiment_Inr [OF that] by (simp add: sentiment_column_def)
qed

theorem sentiment_by_sign_witness:
  "sgn (example_polarity (py ''good'')) = sgn ((\<lambda>t. 1 / 3 :: real) (py ''fine''))
   \<and> get_sentiment example_polarity (py ''good'') = get_sentiment (\<lambda>t. 1 / 3) (py ''fine'')
   \<and> get_sentiment example_polarity (py ''good'') = py ''Positive''
   \<and> (\<exists>cdf. add_sentiment ascii_lib example_polarity example_df (select_object example_df)
               = Inr cdf
          \<and> getitem cdf (py ''Cleaned_Text'')
              = Inr [Str (py ''bad''), Str (py ''bad''), Str (py ''good'')]
          \<and> getitem cdf (py ''Sentiment'')
              = Inr [Str (py ''Negative''), Str (py ''Negative''), Str (py ''Positive'')])"
proof -
  have s: "sgn (example_polarity (py ''good'')) = sgn ((\<lambda>t. 1 / 3 :: real) (py ''fine''))"
    by (simp add: example_polarity_def)
  have p: "0 < example_polarity (py ''good'')"
    by (simp add: example_polarity_def)
  have "0 < df_len example_df" by (simp add: example_df_def)
  then obtain cdf where
    c: "add_sentiment ascii_lib example_polarity example_df (select_object example_df) = Inr cdf"
    using add_sentiment_rows select_object_present by blast
  have v: "case add_sentiment ascii_lib example_polarity example_df (select_object example_df) of
             Inl e \<Rightarrow> False
           | Inr cdf \<Rightarrow>
               getitem cdf (py ''Cleaned_Text'')
                 = Inr [Str (py ''bad''), Str (py ''bad''), Str (py ''good'')]"
    by code_simp
  have m: "map (\<lambda>x. Str (get_sentiment example_polarity (cell_str ascii_lib x)))
             [Str (py ''bad''), Str (py ''bad''), Str (py ''good'')]
           = [Str (py ''Negative''), Str (py ''Negative''), Str (py ''Positive'')]"
    by code_simp
  have t: "(get_sentiment example_polarity (py ''good'') = py ''Positive'')
             = (0 < example_polarity (py ''good''))
      \<and> (sgn (example_polarity (py ''good'')) = sgn ((\<lambda>t. 1 / 3 :: real) (py ''fine'')) \<longrightarrow>
           get_sentiment example_polarity (py ''good'') = get_sentiment (\<lambda>t. 1 / 3) (py ''fine''))
      \<and> (\<exists>cleaned.
           getitem cdf (py ''Cleaned_Text'') = Inr cleaned
           \<and> getitem cdf (py ''Sentiment'')
               = Inr (map (\<lambda>x. Str (get_sentiment example_polarity (cell_str ascii_lib x))) cleaned))"
    using c sentiment_by_sign [of example_polarity "py ''good''" "\<lambda>t. 1 / 3" "py ''fine''"
        ascii_lib example_df "select_object example_df" cdf]
    by blast
  from v c have "getitem cdf (py ''Cleaned_Text'')
      = Inr [Str (py ''bad''), Str (py ''bad''), Str (py ''good'')]" by simp
  with t m s p c show ?thesis by auto
qed

text \<open>
  C6: on every classified table, choosing \<open>All\<close> gives the table itself, and choosing
  one of the three labels gives a table with the same columns whose rows are the rows
  of the classified table with that label in \<open>Sentiment\<close>, each of them, in their order.
\<close>

theorem filter_by_label:
  assumes "add_sentiment L polarity df text_cols = Inr cdf"
  shows "filtered_df cdf (py ''All'') = Inr cdf
     \<and> (\<forall>label \<in> {py ''Positive'', py ''Neutral'', py ''Negative''}.
          \<exists>fdf. filtered_df cdf label = Inr fdf
            \<and> rows fdf = filter (\<lambda>r. map_of r (py ''Sentiment'') = Some (Str label)) (rows cdf)
            \<and> map col_name (df_columns fdf) = map col_name (df_columns cdf))"
proof -
  let ?col = "sentiment_column L polarity df text_cols"
  have col: "getitem cdf (py ''Sentiment'') = Inr ?col"
    and len: "df_len cdf = df_len df"
    using add_sentiment_Inr [OF assms] by simp_all
  have l: "length ?col = df_len cdf" using len by (simp add: length_sentiment_column)
  have "\<exists>fdf. filtered_df cdf label = Inr fdf
            \<and> rows fdf = filter (\<lambda>r. map_of r (py ''Sentiment'') = Some (Str label)) (rows cdf)
            \<and> map col_name (df_columns fdf) = map col_name (df_columns cdf)"
    if "label \<in> {py ''Positive'', py ''Neutral'', py ''Negative''}" for label
  proof -
    from that have "label \<noteq> py ''All''" using labels_distinct by auto
    then have "filtered_df cdf label = Inr (bool_index cdf (eq_mask ?col label))"
      using col by (simp add: filtered_df_def)
    moreover have "map col_name (df_columns (bool_index cdf (eq_mask ?col label)))
        = map col_name (df_columns cdf)"
      by (simp add: bool_index_def Let_def comp_def)
    ultimately show ?thesis using rows_filtered [OF col l] by simp
  qed
  moreover have "filtered_df cdf (py ''All'') = Inr cdf" by (simp add: filtered_df_def)
  ultimately show ?thesis by blast
qed

theorem filter_by_label_witness:
  "py ''Negative'' \<in> {py ''Positive'', py ''Neutral'', py ''Negative''}
   \<and> (\<exists>cdf fdf.
        add_sentiment ascii_lib example_polarity example_df (select_object example_df) = Inr cdf
        \<and> filtered_df cdf (py ''Negative'') = Inr fdf
        \<and> rows fdf
            = filter (\<lambda>r. map_of r (py ''Sentiment'') = Some (Str (py ''Negative''))) (rows cdf)
        \<and> map (\<lambda>r. map_of r (py ''id'')) (rows fdf) = [Some (Num 1), Some (Num 2)])"
proof -
  have m: "py ''Negative'' \<in> {py ''Positive'', py ''Neutral'', py ''Negative''}" by simp
  have v: "case add_sentiment ascii_lib example_polarity example_df (select_object example_df) of
             Inl e \<Rightarrow> False
           | Inr cdf \<Rightarrow>
               map (\<lambda>r. map_of r (py ''id''))
                 (filter (\<lambda>r. map_of r (py ''Sentiment'') = Some (Str (py ''Negative'')))
                    (rows cdf))
               = [Some (Num 1), Some (Num 2)]"
    by code_simp
  have "0 < df_len example_df" by (simp add: example_df_def)
  then obtain cdf where
    c: "add_sentiment ascii_lib example_polarity example_df (select_object example_df) = Inr cdf"
    using add_sentiment_rows select_object_present by blast
  from filter_by_label [OF c] m obtain fdf where "filtered_df cdf (py ''Negative'') = Inr fdf"
    and "rows fdf
       = filter (\<lambda>r. map_of r (py ''Sentiment'') = Some (Str (py ''Negative''))) (rows cdf)"
    by blast
  with m c v show ?thesis by auto
qed

text \<open>
  C7: when no column of the uploaded table has dtype \<open>object\<close>, the run shows the error
  box and nothing else, and ends by \<open>st.stop()\<close>, not by an exception: no metric, chart
  or table is shown.
\<close>

theorem no_text_column_stops:
  assumes "\<forall>c \<in> set (df_columns df). col_dtype c \<noteq> Object"
  shows "app L polarity (Some (Inr df)) sentiment_choice
     = ([ErrorBox (py ''No text columns found in your CSV.'')], Stopped)"
proof -
  from assms have "select_object df = []"
    by (simp add: select_object_def filter_empty_conv)
  then show ?thesis by (simp add: app_def)
qed

theorem no_text_column_stops_witness:
  "list_all (\<lambda>c. col_dtype c \<noteq> Object) (df_columns numeric_df)
   \<and> app ascii_lib example_polarity (Some (Inr numeric_df)) (py ''All'')
     = ([ErrorBox (py ''No text columns found in your CSV.'')], Stopped)"
proof -
  have h: "\<forall>c \<in> set (df_columns numeric_df). col_dtype c \<noteq> Object"
    by (simp add: numeric_df_def)
  show ?thesis
    using h no_text_column_stops [OF h, of ascii_lib example_polarity "py ''All''"]
    by (simp add: list_all_iff)
qed

text \<open>
  C10, as stated, fails: on the table without rows that has the two text columns
  \<open>title\<close> and \<open>review\<close> the run never reaches the percentages.  Line 42 raises
  \<open>ValueError\<close> and nothing is shown.
\<close>

theorem zero_rows_counterexample:
  "list_ex (\<lambda>c. col_dtype c = Object) (df_columns empty_two_df)
   \<and> df_len empty_two_df = 0
   \<and> app ascii_lib example_polarity (Some (Inr empty_two_df)) (py ''All'')
       = ([], Raised ValueError)"
  by code_simp

text \<open>
  C10, amended: when the uploaded table, its column names distinct, has exactly one
  \<open>object\<close> column and no rows, the run shows the metric of the row count, zero, and
  ends with \<open>ZeroDivisionError\<close>, raised by the first percentage; nothing else of the
  summary is shown.
\<close>

theorem zero_rows_division_by_zero:
  assumes "distinct (map col_name (df_columns df))"
    and "length (select_object df) = 1" and "df_len df = 0"
  shows "app L polarity (Some (Inr df)) sentiment_choice
     = ([Metric (py ''Total Rows'') 0 None], Raised ZeroDivisionError)"
proof -
  from assms(2) have t: "select_object df \<noteq> []" by auto
  have "length (named_columns df (select_object df)) = 1"
    using getitems_select_object [OF assms(1)] assms(2) by (simp add: select_object_def)
  then obtain cdf where cdf: "add_sentiment L polarity df (select_object df) = Inr cdf"
    by (simp add: add_sentiment_cases select_object_present)
  have col: "getitem cdf (py ''Sentiment'')
        = Inr (sentiment_column L polarity df (select_object df))"
    and len: "df_len cdf = df_len df"
    using add_sentiment_Inr [OF cdf] by simp_all
  obtain pos neg neu where "count_label cdf (py ''Positive'') = Inr pos"
    and "count_label cdf (py ''Negative'') = Inr neg"
    and "count_label cdf (py ''Neutral'') = Inr neu"
    using count_label_Inr [OF col] by blast
  then have "dashboard cdf sentiment_choice
      = ([Metric (py ''Total Rows'') 0 None], Raised ZeroDivisionError)"
    using len assms(3) by (simp add: dashboard_def summary_tab_zero and_then_def)
  with t cdf show ?thesis by (simp add: app_def)
qed

theorem zero_rows_division_by_zero_witness:
  "distinct (map col_name (df_columns empty_df))
   \<and> length (select_object empty_df) = 1 \<and> df_len empty_df = 0
   \<and> app ascii_lib example_polarity (Some (Inr empty_df)) (py ''All'')
     = ([Metric (py ''Total Rows'') 0 None], Raised ZeroDivisionError)"
proof -
  have d: "distinct (map col_name (df_columns empty_df))" by (simp add: empty_df_def)
  have h: "length (select_object empty_df) = 1" by (simp add: empty_df_def select_object_def)
  have z: "df_len empty_df = 0" by (simp add: empty_df_def)
  show ?thesis
    using d h z zero_rows_division_by_zero [OF d h z, of ascii_lib example_polarity "py ''All''"]
    by simp
qed

text \<open>
  C8 does not hold of the code.  On \<open>example_df\<close>, with two negative reviews and one
  positive one, the bar and the pie colour \<open>Negative\<close> green and \<open>Positive\<close> grey, and
  the line runs from \<open>Negative\<close> to \<open>Positive\<close> through two points: colours and order
  follow the rank of the counts.
\<close>

theorem charts_color_by_rank:
  "BarChart [(Str (py ''Negative''), 2, py ''green''), (Str (py ''Positive''), 1, py ''grey'')]
     \<in> set (fst (app ascii_lib example_polarity (Some (Inr example_df)) (py ''All'')))
   \<and> PieChart [(Str (py ''Negative''), 2, py ''green''), (Str (py ''Positive''), 1, py ''grey'')]
     \<in> set (fst (app ascii_lib example_polarity (Some (Inr example_df)) (py ''All'')))
   \<and> LineChart [(Str (py ''Negative''), 2), (Str (py ''Positive''), 1)]
     \<in> set (fst (app ascii_lib example_polarity (Some (Inr example_df)) (py ''All'')))"
  by code_simp

end
